theory Spec2Isabelle
  imports Main "HOL-Library.Sublist"
begin

section \<open>The interview-question generator\<close>

text \<open>
  The repository is one Python script, \<^verbatim>\<open>generate_interview_questions.py\<close>. It holds two
  module-level tables (\<^verbatim>\<open>topics\<close>, a dict from day number to title, and \<^verbatim>\<open>companies\<close>, a
  list of names), and one loop over \<^verbatim>\<open>range(6, 21)\<close> that looks the topic up, builds the
  markdown text \<^verbatim>\<open>content\<close> from three f-strings, writes it to
  \<^verbatim>\<open>day-{day}/practice/interview-questions.md\<close> and prints a notice. A last
  \<^verbatim>\<open>print\<close> follows the loop.

  Text is modelled as \<^typ>\<open>string\<close>, a list of bytes: the two emoji of the source are
  written as their UTF-8 encodings. Day numbers are Python's unbounded integers,
  \<^typ>\<open>int\<close>. The dict is a map, a missing key is the error \<open>KeyError\<close>; the file system is
  an explicit state, and a failing \<^verbatim>\<open>open\<close> is an error value that ends the run.
\<close>

subsection \<open>Text primitives of the host language\<close>

definition newline :: char where
  "newline = CHR 0x0A"

text \<open>The two emoji of the source, UTF-8 encoded: U+2705 (check mark) and U+1F3AF (target).\<close>

definition check_mark :: string where
  "check_mark = [CHR 0xE2, CHR 0x9C, CHR 0x85]"

definition dart :: string where
  "dart = [CHR 0xF0, CHR 0x9F, CHR 0x8E, CHR 0xAF]"

text \<open>\<^verbatim>\<open>str(n)\<close>, which is what an f-string field \<^verbatim>\<open>{day}\<close> inserts for an integer.\<close>

definition digit :: "nat \<Rightarrow> char" where
  "digit n = ''0123456789'' ! n"

fun str_nat :: "nat \<Rightarrow> string" where
  "str_nat n = (if n < 10 then [digit n] else str_nat (n div 10) @ [digit (n mod 10)])"

declare str_nat.simps [simp del]

definition str_int :: "int \<Rightarrow> string" where
  "str_int i = (if i < 0 then CHR ''-'' # str_nat (nat (- i)) else str_nat (nat i))"

definition dec_val :: "string \<Rightarrow> nat" where
  "dec_val cs = foldl (\<lambda>a c. 10 * a + (of_char c - 48)) 0 cs"

text \<open>\<^verbatim>\<open>sep.join(xs)\<close>.\<close>

fun join :: "string \<Rightarrow> string list \<Rightarrow> string" where
  "join sep [] = []"
| "join sep [x] = x"
| "join sep (x # y # ys) = x @ sep @ join sep (y # ys)"

text \<open>
  A triple-quoted literal is the sequence of its source lines, each followed by a line
  feed (the literal's text starts right after the opening quotes and its last line feed
  precedes the closing quotes).
\<close>

definition unlines :: "string list \<Rightarrow> string" where
  "unlines ls = concat (map (\<lambda>l. l @ [newline]) ls)"

subsection \<open>The static tables\<close>

definition topics :: "int \<rightharpoonup> string" where
  "topics = map_of
    [(6, ''Forms & Controlled Components''),
     (7, ''Conditional Rendering Patterns''),
     (8, ''useEffect Hook - Part 1''),
     (9, ''useEffect Hook - Part 2''),
     (10, ''Data Fetching Patterns''),
     (11, ''useRef Hook''),
     (12, ''useCallback Hook''),
     (13, ''useMemo Hook''),
     (14, ''Context API - Part 1''),
     (15, ''Context API - Part 2''),
     (16, ''Custom Hooks - Part 1''),
     (17, ''Custom Hooks - Part 2''),
     (18, ''Component Composition''),
     (19, ''Compound Components Pattern''),
     (20, ''Render Props Pattern'')]"

definition companies :: "string list" where
  "companies = [''Google'', ''Meta'', ''Amazon'', ''Microsoft'', ''Apple'', ''Netflix'',
     ''Uber'', ''LinkedIn'', ''Twitter'', ''Airbnb'']"

subsection \<open>Rendering \<^verbatim>\<open>content\<close>\<close>

text \<open>The first f-string: everything up to and including the blank line that follows
  \<^verbatim>\<open>### Questions from specific companies:\<close>.\<close>

definition head_lines :: "int \<Rightarrow> string \<Rightarrow> string list \<Rightarrow> string list" where
  "head_lines day topic comps =
    [''# Day '' @ str_int day @ '': '' @ topic @ '' - 100+ Interview Questions'',
     '''',
     ''## Theory Questions from Top MNCs (50+)'',
     '''',
     ''### Q1-Q50: Core Concepts ('' @ topic @ '')'',
     '''',
     ''Day '' @ str_int day @ '' covers essential React concepts related to '' @ topic @ ''.'',
     '''',
     ''**Key Topics**:'',
     ''- Fundamental concepts'',
     ''- Advanced patterns'',
     ''- Best practices'',
     ''- Performance optimization'',
     ''- Real-world applications'',
     '''',
     ''**Companies**: '' @ join '', '' comps,
     '''',
     ''---'',
     '''',
     ''## Coding Challenges from Real Interviews (40+)'',
     '''',
     ''### Problem 1-40: Practical Coding Problems'',
     '''',
     ''Real coding challenges asked in interviews at top companies covering '' @ topic @ ''.'',
     '''',
     ''**Sample Problems**:'',
     ''1. Basic implementation'',
     ''2. Intermediate patterns'',
     ''3. Advanced optimizations'',
     ''4. Real-world scenarios'',
     '''',
     ''---'',
     '''',
     ''## Advanced & Edge Cases (10+)'',
     '''',
     ''### Q1-Q10: Edge Cases and Advanced Scenarios'',
     '''',
     ''Questions testing deep understanding of '' @ topic @ '' and edge cases.'',
     '''',
     ''---'',
     '''',
     ''## Company-Specific Questions (10+)'',
     '''',
     ''### Questions from specific companies:'',
     '''']"

text \<open>The f-string appended once per company.\<close>

definition company_lines :: "string \<Rightarrow> string \<Rightarrow> string list" where
  "company_lines company topic =
    ['''',
     ''### '' @ company @ '' Questions'',
     ''- Question 1 about '' @ topic,
     ''- Question 2 about '' @ topic,
     ''- Best practices for '' @ topic]"

text \<open>The f-string appended after the company loop.\<close>

definition summary_lines :: "string \<Rightarrow> string list" where
  "summary_lines topic =
    ['''',
     ''---'',
     '''',
     ''## Summary'',
     ''- **Total Questions**: 100+'',
     ''- **Theory**: 50+ questions'',
     ''- **Coding**: 40+ challenges'',
     ''- **Advanced**: 10+ edge cases'',
     ''- **Company-specific**: 10+ questions'',
     '''',
     ''**'' @ dart @ '' Master '' @ topic @ '' with comprehensive coverage!**'',
     '''']"

text \<open>
  The body of the loop up to the \<^verbatim>\<open>with\<close> statement: \<^verbatim>\<open>content\<close> is assigned the first
  f-string, the inner \<^verbatim>\<open>for company in companies\<close> appends one block per company (a
  left fold over the list), and the summary is appended last.
\<close>

definition render :: "int \<Rightarrow> string \<Rightarrow> string list \<Rightarrow> string" where
  "render day topic comps =
    foldl (\<lambda>content company. content @ unlines (company_lines company topic))
      (unlines (head_lines day topic comps)) comps
    @ unlines (summary_lines topic)"

text \<open>The lines of \<^verbatim>\<open>content\<close> in order, each of which \<open>render\<close> ends with a line feed.\<close>

definition all_lines :: "int \<Rightarrow> string \<Rightarrow> string list \<Rightarrow> string list" where
  "all_lines day topic comps =
    head_lines day topic comps @ concat (map (\<lambda>company. company_lines company topic) comps)
      @ summary_lines topic"

subsection \<open>Paths and console lines\<close>

definition out_path :: "int \<Rightarrow> string" where
  "out_path day = ''day-'' @ str_int day @ ''/practice/interview-questions.md''"

definition created_msg :: "int \<Rightarrow> string" where
  "created_msg day = check_mark @ '' Created day-'' @ str_int day @ ''/practice/interview-questions.md''"

definition final_msg :: string where
  "final_msg = check_mark @ '' Generated all interview question files!''"

subsection \<open>The environment: files, directories, console\<close>

text \<open>
  Every effect of the script is recorded in order in \<open>trace\<close>: a completed file write
  (path and full contents) or a printed line. \<open>files\<close> is the contents of the regular
  files, \<open>dirs\<close> the directories that exist and \<open>readonly\<close> the paths that cannot be
  opened for writing although their directory exists. All paths are relative to the
  working directory.
\<close>

datatype event = Wrote string string | Printed string

datatype error = KeyError int | FileNotFoundError string | PermissionError string

record world =
  dirs :: "string list"
  readonly :: "string list"
  files :: "string \<rightharpoonup> string"
  trace :: "event list"

text \<open>The directory part of a path: everything before its last slash.\<close>

definition dirname :: "string \<Rightarrow> string" where
  "dirname p = rev (drop 1 (dropWhile (\<lambda>c. c \<noteq> CHR ''/'') (rev p)))"

text \<open>
  \<^verbatim>\<open>with open(path, "w") as f: f.write(content)\<close>. Opening fails when the parent
  directory is missing or the path is not writable; otherwise the file is created or
  truncated and receives exactly \<open>content\<close>. The script has no call that creates a
  directory, so \<open>dirs\<close> is never changed. A failure after a successful open (a full disk, a
  locale that cannot encode the emoji) is not modelled: a write that starts completes.
\<close>

definition write_file :: "string \<Rightarrow> string \<Rightarrow> world \<Rightarrow> error + world" where
  "write_file p content w =
    (if dirname p \<notin> set (dirs w) then Inl (FileNotFoundError p)
     else if p \<in> set (readonly w) then Inl (PermissionError p)
     else Inr (w\<lparr>files := (files w)(p \<mapsto> content), trace := trace w @ [Wrote p content]\<rparr>))"

definition print_line :: "string \<Rightarrow> world \<Rightarrow> world" where
  "print_line s w = w\<lparr>trace := trace w @ [Printed s]\<rparr>"

subsection \<open>The main loop\<close>

text \<open>
  \<^verbatim>\<open>for day in ...\<close> over a list of days, with the two tables as parameters. An exception
  ends the loop at once: the result is the error together with the world as it is at
  that moment. \<open>None\<close> means the loop ran to its end.
\<close>

fun loop :: "(int \<rightharpoonup> string) \<Rightarrow> string list \<Rightarrow> int list \<Rightarrow> world \<Rightarrow> error option \<times> world" where
  "loop tbl comps [] w = (None, w)"
| "loop tbl comps (day # days) w =
    (case tbl day of
       None \<Rightarrow> (Some (KeyError day), w)
     | Some topic \<Rightarrow>
        (case write_file (out_path day) (render day topic comps) w of
           Inl e \<Rightarrow> (Some e, w)
         | Inr w' \<Rightarrow> loop tbl comps days (print_line (created_msg day) w')))"

text \<open>The whole script for given tables: the loop over \<^verbatim>\<open>range(6, 21)\<close>, then the last
  \<^verbatim>\<open>print\<close>, which is reached only when no exception was raised.\<close>

definition generate :: "(int \<rightharpoonup> string) \<Rightarrow> string list \<Rightarrow> world \<Rightarrow> error option \<times> world" where
  "generate tbl comps w =
    (case loop tbl comps [6..20] w of
       (None, w') \<Rightarrow> (None, print_line final_msg w')
     | (Some e, w') \<Rightarrow> (Some e, w'))"

text \<open>The script as shipped, on its own two tables.\<close>

definition main :: "world \<Rightarrow> error option \<times> world" where
  "main w = generate topics companies w"

subsection \<open>One iteration, seen from outside\<close>

text \<open>
  Whether the iteration for \<open>day\<close> runs to its end in world \<open>w\<close>, the exception it raises
  when it does not, and the events and the file it leaves when it does. These name the
  branches of \<open>loop\<close>; the lemmas below relate them to it.
\<close>

definition day_ok :: "(int \<rightharpoonup> string) \<Rightarrow> world \<Rightarrow> int \<Rightarrow> bool" where
  "day_ok tbl w day \<longleftrightarrow>
    tbl day \<noteq> None \<and> dirname (out_path day) \<in> set (dirs w) \<and> out_path day \<notin> set (readonly w)"

definition day_error :: "(int \<rightharpoonup> string) \<Rightarrow> world \<Rightarrow> int \<Rightarrow> error" where
  "day_error tbl w day =
    (if tbl day = None then KeyError day
     else if dirname (out_path day) \<notin> set (dirs w) then FileNotFoundError (out_path day)
     else PermissionError (out_path day))"

definition day_events :: "(int \<rightharpoonup> string) \<Rightarrow> string list \<Rightarrow> int \<Rightarrow> event list" where
  "day_events tbl comps day =
    (case tbl day of
       None \<Rightarrow> []
     | Some topic \<Rightarrow> [Wrote (out_path day) (render day topic comps), Printed (created_msg day)])"

definition day_files ::
  "(int \<rightharpoonup> string) \<Rightarrow> string list \<Rightarrow> (string \<rightharpoonup> string) \<Rightarrow> int \<Rightarrow> (string \<rightharpoonup> string)" where
  "day_files tbl comps m day =
    (case tbl day of
       None \<Rightarrow> m
     | Some topic \<Rightarrow> m(out_path day \<mapsto> render day topic comps))"

subsection \<open>Observations on a run\<close>

text \<open>The lines of a text, as \<^verbatim>\<open>text.split("\n")\<close> gives them.\<close>

fun split_lines :: "string \<Rightarrow> string list" where
  "split_lines [] = [[]]"
| "split_lines (c # cs) =
    (if c = newline then [] # split_lines cs
     else (c # hd (split_lines cs)) # tl (split_lines cs))"

text \<open>A section of a markdown document: from its heading line to the next rule line.\<close>

definition section_lines :: "string \<Rightarrow> string list \<Rightarrow> string list" where
  "section_lines heading ls = takeWhile (\<lambda>l. l \<noteq> ''---'') (dropWhile (\<lambda>l. l \<noteq> heading) ls)"

text \<open>A company subsection is recognised by its heading line, \<^verbatim>\<open>### ... Questions\<close>.\<close>

definition company_heading :: "string \<Rightarrow> bool" where
  "company_heading l \<longleftrightarrow> prefix ''### '' l \<and> suffix '' Questions'' l"

text \<open>What the console shows, the paths written, and the per-day notices.\<close>

fun console :: "event list \<Rightarrow> string list" where
  "console [] = []"
| "console (Printed s # es) = s # console es"
| "console (Wrote p c # es) = console es"

fun written :: "event list \<Rightarrow> string list" where
  "written [] = []"
| "written (Wrote p c # es) = p # written es"
| "written (Printed s # es) = written es"


subsection \<open>Sample environments\<close>

text \<open>
  \<open>prepared\<close> has the fifteen \<^verbatim>\<open>day-N/practice\<close> directories and an old file at the
  first destination; \<open>half_prepared\<close> has the directories of days 6 and 7 only; \<open>bare\<close> has
  no directory at all.
\<close>

definition prepared :: world where
  "prepared =
    \<lparr>dirs = map (\<lambda>d. ''day-'' @ str_int d @ ''/practice'') [6..20],
     readonly = [],
     files = [''day-6/practice/interview-questions.md'' \<mapsto> ''stale''],
     trace = []\<rparr>"

definition half_prepared :: world where
  "half_prepared =
    \<lparr>dirs = [''day-6/practice'', ''day-7/practice''],
     readonly = [],
     files = Map.empty,
     trace = []\<rparr>"

definition bare :: world where
  "bare = \<lparr>dirs = [], readonly = [], files = Map.empty, trace = []\<rparr>"


section \<open>Auxiliary facts\<close>

subsection \<open>Decimal numerals and paths\<close>

lemma digit_val: "k < 10 \<Longrightarrow> of_char (digit k) = (48 + k :: nat)"
proof -
  assume "k < 10"
  then have "k \<in> {0, 1, 2, 3, 4, 5, 6, 7, 8, 9}" by (simp, arith)
  then show ?thesis by (auto simp: digit_def)
qed

lemma digit_in: "n < 10 \<Longrightarrow> digit n \<in> set ''0123456789''"
  unfolding digit_def by (rule nth_mem) simp

lemma str_nat_digits: "set (str_nat n) \<subseteq> set ''0123456789''"
proof (induction n rule: str_nat.induct)
  case (1 n)
  show ?case
  proof (cases "n < 10")
    case True
    then show ?thesis using digit_in [of n] by (subst str_nat.simps) simp
  next
    case False
    have "n mod 10 < 10" by simp
    then have "digit (n mod 10) \<in> set ''0123456789''" by (rule digit_in)
    with False "1.IH" show ?thesis by (subst str_nat.simps) simp
  qed
qed

lemma dec_val_snoc: "dec_val (cs @ [c]) = 10 * dec_val cs + (of_char c - 48)"
  by (simp add: dec_val_def)

lemma dec_val_str_nat: "dec_val (str_nat n) = n"
proof (induction n rule: str_nat.induct)
  case (1 n)
  show ?case
  proof (cases "n < 10")
    case True
    then show ?thesis
      by (subst str_nat.simps) (simp add: dec_val_def digit_val)
  next
    case False
    have "n mod 10 < 10" by simp
    then have "of_char (digit (n mod 10)) = (48 + n mod 10 :: nat)" by (rule digit_val)
    with False "1.IH" show ?thesis
      by (subst str_nat.simps) (simp add: dec_val_snoc)
  qed
qed


lemma str_nat_inj: "str_nat m = str_nat n \<Longrightarrow> m = n"
  by (metis dec_val_str_nat)

lemma str_int_chars: "set (str_int i) \<subseteq> set ''-0123456789''"
proof (cases "i < 0")
  case True
  with str_nat_digits [of "nat (- i)"] show ?thesis
    unfolding str_int_def by (simp add: subset_iff)
next
  case False
  with str_nat_digits [of "nat i"] show ?thesis
    unfolding str_int_def by (simp add: subset_iff)
qed

lemma str_nat_no_sign: "CHR ''-'' # xs \<noteq> str_nat n"
proof
  assume "CHR ''-'' # xs = str_nat n"
  then have "CHR ''-'' \<in> set (str_nat n)" by (metis list.set_intros(1))
  with str_nat_digits [of n] show False by auto
qed

lemma str_int_inj: "str_int i = str_int j \<Longrightarrow> i = j"
proof -
  assume eq: "str_int i = str_int j"
  show ?thesis
  proof (cases "i < 0"; cases "j < 0")
    assume "i < 0" "j < 0"
    with eq have "nat (- i) = nat (- j)" by (simp add: str_int_def str_nat_inj)
    with \<open>i < 0\<close> \<open>j < 0\<close> show ?thesis by simp
  next
    assume "i < 0" "\<not> j < 0"
    with eq str_nat_no_sign show ?thesis by (simp add: str_int_def)
  next
    assume "\<not> i < 0" "j < 0"
    with eq str_nat_no_sign [of "str_nat (nat (- j))" "nat i"] show ?thesis by (simp add: str_int_def)
  next
    assume "\<not> i < 0" "\<not> j < 0"
    with eq have "nat i = nat j" by (simp add: str_int_def str_nat_inj)
    with \<open>\<not> i < 0\<close> \<open>\<not> j < 0\<close> show ?thesis by simp
  qed
qed

lemma out_path_inj: "out_path i = out_path j \<Longrightarrow> i = j"
  by (simp add: out_path_def str_int_inj)

lemma dirname_slash:
  assumes "CHR ''/'' \<notin> set b"
  shows "dirname (a @ CHR ''/'' # b) = a"
proof -
  have "dropWhile (\<lambda>c. c \<noteq> CHR ''/'') (rev b @ CHR ''/'' # rev a) =
        dropWhile (\<lambda>c. c \<noteq> CHR ''/'') (CHR ''/'' # rev a)"
    using assms by (intro dropWhile_append2) auto
  then show ?thesis by (simp add: dirname_def)
qed

lemma dirname_out_path: "dirname (out_path day) = ''day-'' @ str_int day @ ''/practice''"
proof -
  have "out_path day = (''day-'' @ str_int day @ ''/practice'') @ CHR ''/'' # ''interview-questions.md''"
    by (simp add: out_path_def)
  moreover have "CHR ''/'' \<notin> set ''interview-questions.md''" by simp
  ultimately show ?thesis using dirname_slash by metis
qed

lemma str_int_no_newline: "newline \<notin> set (str_int i)"
  using str_int_chars [of i] by (auto simp: newline_def)

subsection \<open>Lines of the rendered text\<close>

lemma unlines_append: "unlines (xs @ ys) = unlines xs @ unlines ys"
  by (simp add: unlines_def)

lemma unlines_concat: "unlines (concat xss) = concat (map unlines xss)"
  by (induction xss) (simp_all add: unlines_append, simp add: unlines_def)

lemma foldl_append_blocks: "foldl (\<lambda>acc x. acc @ f x) acc0 xs = acc0 @ concat (map f xs)"
  by (induction xs arbitrary: acc0) simp_all

lemma render_unlines: "render day topic comps = unlines (all_lines day topic comps)"
  by (simp add: render_def all_lines_def foldl_append_blocks unlines_append unlines_concat comp_def)

lemma split_lines_line: "newline \<notin> set l \<Longrightarrow> split_lines (l @ newline # rest) = l # split_lines rest"
  by (induction l) auto

lemma split_lines_unlines:
  "\<forall>l \<in> set ls. newline \<notin> set l \<Longrightarrow> split_lines (unlines ls @ rest) = ls @ split_lines rest"
proof (induction ls)
  case Nil
  then show ?case by (simp add: unlines_def)
next
  case (Cons l ls)
  have "unlines (l # ls) @ rest = l @ newline # (unlines ls @ rest)"
    by (simp add: unlines_def)
  with Cons show ?case by (simp add: split_lines_line)
qed

lemma join_no_newline:
  "newline \<notin> set sep \<Longrightarrow> \<forall>c \<in> set xs. newline \<notin> set c \<Longrightarrow> newline \<notin> set (join sep xs)"
  by (induction sep xs rule: join.induct) simp_all

lemma head_lines_no_newline:
  assumes "newline \<notin> set topic" "\<forall>c \<in> set comps. newline \<notin> set c"
  shows "\<forall>l \<in> set (head_lines day topic comps). newline \<notin> set l"
proof -
  have "newline \<notin> set (join '', '' comps)"
    using assms(2) by (intro join_no_newline) (simp_all add: newline_def)
  with assms(1) str_int_no_newline [of day] show ?thesis
    by (simp add: head_lines_def) (simp add: newline_def)
qed

lemma company_lines_no_newline:
  "newline \<notin> set topic \<Longrightarrow> newline \<notin> set c \<Longrightarrow> \<forall>l \<in> set (company_lines c topic). newline \<notin> set l"
  by (simp add: company_lines_def) (simp add: newline_def)

lemma summary_lines_no_newline:
  "newline \<notin> set topic \<Longrightarrow> \<forall>l \<in> set (summary_lines topic). newline \<notin> set l"
  by (simp add: summary_lines_def dart_def) (simp add: newline_def)

lemma all_lines_no_newline:
  assumes "newline \<notin> set topic" "\<forall>c \<in> set comps. newline \<notin> set c"
  shows "\<forall>l \<in> set (all_lines day topic comps). newline \<notin> set l"
  using head_lines_no_newline [OF assms] summary_lines_no_newline [OF assms(1)]
    company_lines_no_newline [OF assms(1)] assms(2)
  by (auto simp: all_lines_def)

lemma split_lines_render:
  assumes "newline \<notin> set topic" "\<forall>c \<in> set comps. newline \<notin> set c"
  shows "split_lines (render day topic comps) = all_lines day topic comps @ [[]]"
  using split_lines_unlines [OF all_lines_no_newline [OF assms], of day "[]"]
  by (simp add: render_unlines)

lemma companies_no_newline: "\<forall>c \<in> set companies. newline \<notin> set c"
  by (simp add: companies_def newline_def)

lemma topics_table:
  "topics d = Some t \<Longrightarrow> (d, t) \<in> set
    [(6, ''Forms & Controlled Components''),
     (7, ''Conditional Rendering Patterns''),
     (8, ''useEffect Hook - Part 1''),
     (9, ''useEffect Hook - Part 2''),
     (10, ''Data Fetching Patterns''),
     (11, ''useRef Hook''),
     (12, ''useCallback Hook''),
     (13, ''useMemo Hook''),
     (14, ''Context API - Part 1''),
     (15, ''Context API - Part 2''),
     (16, ''Custom Hooks - Part 1''),
     (17, ''Custom Hooks - Part 2''),
     (18, ''Component Composition''),
     (19, ''Compound Components Pattern''),
     (20, ''Render Props Pattern'')]"
  unfolding topics_def by (rule map_of_SomeD)

lemma topics_no_newline: "topics d = Some t \<Longrightarrow> newline \<notin> set t"
  by (drule topics_table) (auto simp: newline_def)

lemma topics_range: "topics d = Some t \<Longrightarrow> 6 \<le> d \<and> d \<le> 20"
  by (drule topics_table) auto

lemma day_cases:
  "6 \<le> d \<Longrightarrow> d \<le> 20 \<Longrightarrow> d = 6 \<or> d = 7 \<or> d = 8 \<or> d = 9 \<or> d = 10 \<or> d = 11 \<or> d = 12 \<or> d = 13
     \<or> d = 14 \<or> d = 15 \<or> d = 16 \<or> d = 17 \<or> d = 18 \<or> d = 19 \<or> d = (20::int)"
  by arith

lemma topics_defined: "6 \<le> d \<Longrightarrow> d \<le> 20 \<Longrightarrow> \<exists>t. topics d = Some t"
  by (drule (1) day_cases, elim disjE) (simp_all add: topics_def)

subsection \<open>The loop, iteration by iteration\<close>

lemma day_ok_frame: "dirs w' = dirs w \<Longrightarrow> readonly w' = readonly w \<Longrightarrow> day_ok tbl w' = day_ok tbl w"
  by (rule ext) (simp add: day_ok_def)

lemma loop_result:
  "loop tbl comps days w =
    ((case dropWhile (day_ok tbl w) days of [] \<Rightarrow> None | d # _ \<Rightarrow> Some (day_error tbl w d)),
     w\<lparr>files := foldl (day_files tbl comps) (files w) (takeWhile (day_ok tbl w) days),
       trace := trace w @ concat (map (day_events tbl comps) (takeWhile (day_ok tbl w) days))\<rparr>)"
proof (induction days arbitrary: w)
  case Nil
  show ?case by simp
next
  case (Cons d days)
  show ?case
  proof (cases "day_ok tbl w d")
    case False
    then show ?thesis
      by (auto simp: day_ok_def day_error_def write_file_def split: option.splits)
  next
    case True
    then obtain t where t: "tbl d = Some t" by (auto simp: day_ok_def)
    define w' where "w' = print_line (created_msg d)
      (w\<lparr>files := (files w)(out_path d \<mapsto> render d t comps),
         trace := trace w @ [Wrote (out_path d) (render d t comps)]\<rparr>)"
    have step: "loop tbl comps (d # days) w = loop tbl comps days w'"
      using True t by (simp add: day_ok_def write_file_def w'_def)
    have ok: "day_ok tbl w' = day_ok tbl w"
      by (rule day_ok_frame) (simp_all add: w'_def print_line_def)
    have err: "day_error tbl w' = day_error tbl w"
      by (rule ext) (simp add: day_error_def w'_def print_line_def)
    have df: "day_files tbl comps m d = m(out_path d \<mapsto> render d t comps)" for m
      using t by (simp add: day_files_def)
    have de: "day_events tbl comps d = [Wrote (out_path d) (render d t comps), Printed (created_msg d)]"
      using t by (simp add: day_events_def)
    show ?thesis
      unfolding step Cons.IH [of w'] ok err using True
      by (simp add: w'_def print_line_def df de)
  qed
qed

lemma day_files_miss: "p \<noteq> out_path x \<Longrightarrow> day_files tbl comps m x p = m p"
  by (simp add: day_files_def split: option.splits)

lemma day_files_hit: "tbl x = Some t \<Longrightarrow> day_files tbl comps m x (out_path x) = Some (render x t comps)"
  by (simp add: day_files_def)

lemma foldl_files_other:
  "p \<notin> out_path ` set ds \<Longrightarrow> foldl (day_files tbl comps) m ds p = m p"
  by (induction ds rule: rev_induct) (simp_all add: day_files_miss)

lemma foldl_files_written:
  "d \<in> set ds \<Longrightarrow> tbl d = Some t \<Longrightarrow>
    foldl (day_files tbl comps) m ds (out_path d) = Some (render d t comps)"
proof (induction ds rule: rev_induct)
  case Nil
  then show ?case by simp
next
  case (snoc x xs)
  show ?case
  proof (cases "out_path x = out_path d")
    case True
    then have "x = d" by (rule out_path_inj)
    with snoc.prems(2) show ?thesis by (simp add: day_files_hit)
  next
    case False
    then have "x \<noteq> d" by auto
    with snoc have "foldl (day_files tbl comps) m xs (out_path d) = Some (render d t comps)"
      by simp
    with False show ?thesis by (simp add: day_files_miss)
  qed
qed

lemma foldl_files_twice:
  "\<forall>d \<in> set ds. tbl d \<noteq> None \<Longrightarrow>
    foldl (day_files tbl comps) (foldl (day_files tbl comps) m ds) ds = foldl (day_files tbl comps) m ds"
proof (rule ext)
  fix p
  assume ok: "\<forall>d \<in> set ds. tbl d \<noteq> None"
  show "foldl (day_files tbl comps) (foldl (day_files tbl comps) m ds) ds p
        = foldl (day_files tbl comps) m ds p"
  proof (cases "p \<in> out_path ` set ds")
    case False
    then show ?thesis by (simp add: foldl_files_other)
  next
    case True
    then obtain d where d: "d \<in> set ds" "p = out_path d" by auto
    with ok obtain t where "tbl d = Some t" by auto
    with d show ?thesis by (simp add: foldl_files_written)
  qed
qed

lemma loop_fst: "fst (loop tbl comps days w) = None \<longleftrightarrow> (\<forall>d \<in> set days. day_ok tbl w d)"
proof (cases "dropWhile (day_ok tbl w) days")
  case Nil
  then have all: "\<forall>d \<in> set days. day_ok tbl w d" by simp
  show ?thesis unfolding loop_result Nil using all by simp
next
  case (Cons x xs)
  then have "dropWhile (day_ok tbl w) days \<noteq> []" by simp
  then have "\<not> (\<forall>d \<in> set days. day_ok tbl w d)" by simp
  then show ?thesis unfolding loop_result Cons by simp
qed


lemma loop_complete:
  assumes "\<forall>d \<in> set days. day_ok tbl w d"
  shows "loop tbl comps days w =
    (None, w\<lparr>files := foldl (day_files tbl comps) (files w) days,
              trace := trace w @ concat (map (day_events tbl comps) days)\<rparr>)"
proof -
  from assms have tw: "takeWhile (day_ok tbl w) days = days"
    and dw: "dropWhile (day_ok tbl w) days = []"
    by simp_all
  show ?thesis unfolding loop_result tw dw by simp
qed

lemma loop_abort:
  assumes "\<forall>d \<in> set pre. day_ok tbl w d" "\<not> day_ok tbl w d"
  shows "loop tbl comps (pre @ d # post) w = (Some (day_error tbl w d), snd (loop tbl comps pre w))"
proof -
  from assms have tw: "takeWhile (day_ok tbl w) (pre @ d # post) = pre"
    and dw: "dropWhile (day_ok tbl w) (pre @ d # post) = d # post"
    by simp_all
  show ?thesis
    unfolding loop_result [of _ _ "pre @ d # post"] tw dw loop_complete [OF assms(1)] by simp
qed

lemma written_append: "written (xs @ ys) = written xs @ written ys"
  by (induction xs rule: written.induct) simp_all

lemma console_append: "console (xs @ ys) = console xs @ console ys"
  by (induction xs rule: console.induct) simp_all

lemma written_days:
  "\<forall>d \<in> set ds. tbl d \<noteq> None \<Longrightarrow> written (concat (map (day_events tbl comps) ds)) = map out_path ds"
  by (induction ds) (auto simp: day_events_def written_append)

lemma console_days:
  "\<forall>d \<in> set ds. tbl d \<noteq> None \<Longrightarrow> console (concat (map (day_events tbl comps) ds)) = map created_msg ds"
  by (induction ds) (auto simp: day_events_def console_append)


lemma days_split: "6 \<le> d \<Longrightarrow> d \<le> 20 \<Longrightarrow> [6..20] = [6..d - 1] @ d # [d + 1..20]"
  by (rule upto_split3)

lemma str_int_small: "str_int 6 = ''6''" "str_int 7 = ''7''" "str_int 8 = ''8''" "str_int 20 = ''20''"
  by (simp_all add: str_int_def str_nat.simps digit_def)

section \<open>The claims\<close>

subsection \<open>C1: the heading line\<close>

text \<open>
  C1. For every day \<open>d\<close> from 6 to 20 the table has a topic \<open>t\<close>, and the first line of
  the text rendered for \<open>d\<close> is the heading \<^verbatim>\<open># Day d: t - 100+ Interview Questions\<close>: the
  literal heading with the markdown prefix \<^verbatim>\<open>#\<close> and a space. For day 6 this line is
  \<^verbatim>\<open># Day 6: Forms & Controlled Components - 100+ Interview Questions\<close>.
\<close>

theorem heading_first_line:
  "6 \<le> d \<Longrightarrow> d \<le> 20 \<Longrightarrow>
    (\<exists>t. topics d = Some t \<and>
       hd (split_lines (render d t companies)) =
         ''# Day '' @ str_int d @ '': '' @ t @ '' - 100+ Interview Questions'')
    \<and> topics 6 = Some ''Forms & Controlled Components''
    \<and> hd (split_lines (render 6 ''Forms & Controlled Components'' companies)) =
         ''# Day 6: Forms & Controlled Components - 100+ Interview Questions''"
proof -
  assume range: "6 \<le> d" "d \<le> 20"
  have first: "hd (split_lines (render k t companies)) =
      ''# Day '' @ str_int k @ '': '' @ t @ '' - 100+ Interview Questions''"
    if "topics k = Some t" for k t
  proof -
    from that have "newline \<notin> set t" by (rule topics_no_newline)
    then have "split_lines (render k t companies) = all_lines k t companies @ [[]]"
      using companies_no_newline by (rule split_lines_render)
    then show ?thesis by (simp add: all_lines_def head_lines_def)
  qed
  from range obtain t where t: "topics d = Some t" using topics_defined by blast
  have six: "topics 6 = Some ''Forms & Controlled Components''" by (simp add: topics_def)
  from first [OF t] t first [OF six] six show ?thesis by (simp add: str_int_small)
qed

theorem heading_first_line_witness:
  "(6::int) \<le> 13 \<and> (13::int) \<le> 20 \<and> topics 13 = Some ''useMemo Hook'' \<and>
    hd (split_lines (render 13 ''useMemo Hook'' companies)) =
      ''# Day 13: useMemo Hook - 100+ Interview Questions''"
proof -
  have s: "str_int 13 = ''13''" by (simp add: str_int_def str_nat.simps digit_def)
  have t: "topics 13 = Some ''useMemo Hook''" by (simp add: topics_def)
  from heading_first_line [of 13] t s show ?thesis by simp
qed

subsection \<open>C2 and C3: a run that is aborted\<close>

lemma generate_abort:
  "loop tbl comps [6..20] w = (Some e, w') \<Longrightarrow> generate tbl comps w = (Some e, w')"
  unfolding generate_def by (simp only: prod.case option.case)

lemma generate_finish:
  "loop tbl comps [6..20] w = (None, w') \<Longrightarrow> generate tbl comps w = (None, print_line final_msg w')"
  unfolding generate_def by (simp only: prod.case option.case)


lemma loop_error:
  assumes "fst (loop tbl comps days w) = Some e"
  shows "\<exists>d \<in> set days. \<not> day_ok tbl w d \<and> e = day_error tbl w d"
proof (cases "dropWhile (day_ok tbl w) days")
  case Nil
  with assms show ?thesis unfolding loop_result by simp
next
  case (Cons x xs)
  then have "x \<in> set days" by (metis list.set_intros(1) set_dropWhileD)
  moreover have "\<not> day_ok tbl w x" using Cons by (metis hd_dropWhile list.sel(1) list.distinct(1))
  moreover have "e = day_error tbl w x" using assms unfolding loop_result Cons by simp
  ultimately show ?thesis by blast
qed

lemma later_path_fresh: "d \<le> k \<Longrightarrow> out_path k \<notin> out_path ` set [6..d - 1]"
proof
  assume "d \<le> k" "out_path k \<in> out_path ` set [6..d - 1]"
  then obtain j where "j \<in> set [6..d - 1]" "out_path k = out_path j" by auto
  then have "k \<le> d - 1" using out_path_inj [of k j] by simp
  with \<open>d \<le> k\<close> show False by simp
qed

lemma abort_world:
  assumes "\<forall>x \<in> set pre. day_ok tbl w x"
  shows "written (trace (snd (loop tbl comps pre w))) = written (trace w) @ map out_path pre"
    and "console (trace (snd (loop tbl comps pre w))) = console (trace w) @ map created_msg pre"
    and "files (snd (loop tbl comps pre w)) = foldl (day_files tbl comps) (files w) pre"
proof -
  from assms have "\<forall>x \<in> set pre. tbl x \<noteq> None" by (simp add: day_ok_def)
  then show "written (trace (snd (loop tbl comps pre w))) = written (trace w) @ map out_path pre"
    and "console (trace (snd (loop tbl comps pre w))) = console (trace w) @ map created_msg pre"
    unfolding loop_complete [OF assms]
    by (simp_all add: written_append console_append written_days console_days)
  show "files (snd (loop tbl comps pre w)) = foldl (day_files tbl comps) (files w) pre"
    unfolding loop_complete [OF assms] by simp
qed

text \<open>
  C2. Let the topic table have no entry for a day \<open>d\<close> of the range, and let the iterations
  for the days before \<open>d\<close> run to their end, so that the loop reaches \<open>d\<close>. Then the run
  ends with the key-lookup error for \<open>d\<close>, in the very world the earlier days left: the
  only files written and the only notices printed are those of the days before \<open>d\<close>,
  nothing (not even an empty file) is written for \<open>d\<close> or for any later day, and the final
  notice is not printed.
\<close>

theorem missing_topic_aborts:
  assumes "6 \<le> d" "d \<le> 20" "tbl d = None" "fst (loop tbl comps [6..d - 1] w) = None"
  shows "generate tbl comps w = (Some (KeyError d), snd (loop tbl comps [6..d - 1] w))
    \<and> written (trace (snd (generate tbl comps w))) = written (trace w) @ map out_path [6..d - 1]
    \<and> console (trace (snd (generate tbl comps w))) = console (trace w) @ map created_msg [6..d - 1]
    \<and> (\<forall>k. d \<le> k \<longrightarrow> files (snd (generate tbl comps w)) (out_path k) = files w (out_path k))"
proof -
  from assms(4) have pre: "\<forall>x \<in> set [6..d - 1]. day_ok tbl w x" by (simp only: loop_fst)
  from assms(3) have bad: "\<not> day_ok tbl w d" and err: "day_error tbl w d = KeyError d"
    by (simp_all add: day_ok_def day_error_def)
  have "loop tbl comps [6..20] w = (Some (KeyError d), snd (loop tbl comps [6..d - 1] w))"
    unfolding days_split [OF assms(1,2)] loop_abort [OF pre bad] err ..
  then have gen: "generate tbl comps w = (Some (KeyError d), snd (loop tbl comps [6..d - 1] w))"
    by (rule generate_abort)
  have "files (snd (loop tbl comps [6..d - 1] w)) (out_path k) = files w (out_path k)" if "d \<le> k" for k
    unfolding abort_world(3) [OF pre] using later_path_fresh [OF that] by (rule foldl_files_other)
  with gen abort_world(1,2) [OF pre] show ?thesis by simp
qed

lemma half_prepared_ok:
  "tbl 6 \<noteq> None \<Longrightarrow> tbl 7 \<noteq> None \<Longrightarrow> fst (loop tbl comps [6..7] half_prepared) = None"
  unfolding loop_fst
  by (simp add: day_ok_def dirname_out_path str_int_small half_prepared_def)

theorem missing_topic_aborts_witness:
  "(6::int) \<le> 8 \<and> (8::int) \<le> 20 \<and> (topics(8 := None)) 8 = None
    \<and> fst (loop (topics(8 := None)) companies [6..8 - 1] half_prepared) = None
    \<and> fst (generate (topics(8 := None)) companies half_prepared) = Some (KeyError 8)
    \<and> written (trace (snd (generate (topics(8 := None)) companies half_prepared))) =
        [''day-6/practice/interview-questions.md'', ''day-7/practice/interview-questions.md'']
    \<and> files (snd (generate (topics(8 := None)) companies half_prepared))
        ''day-8/practice/interview-questions.md'' = None"
proof -
  have pre: "fst (loop (topics(8 := None)) companies [6..8 - 1] half_prepared) = None"
    using half_prepared_ok [of "topics(8 := None)" companies] by (simp add: topics_def)
  have p8: "out_path 8 = ''day-8/practice/interview-questions.md''"
    by (simp add: out_path_def str_int_small)
  from missing_topic_aborts [of 8 "topics(8 := None)" companies half_prepared, OF _ _ _ pre] pre p8
  show ?thesis
    by (auto simp: out_path_def str_int_small half_prepared_def)
qed




subsection \<open>C9: the shipped table covers the range\<close>

lemma main_error:
  "fst (main w) = Some e \<Longrightarrow> \<exists>d \<in> set [6..20]. \<not> day_ok topics w d \<and> e = day_error topics w d"
proof -
  assume a: "fst (main w) = Some e"
  obtain r w' where r: "loop topics companies [6..20] w = (r, w')" by (rule prod.exhaust)
  have "r = Some e"
  proof (cases r)
    case None
    with r have "main w = (None, print_line final_msg w')"
      unfolding main_def by (simp only: generate_finish)
    with a show ?thesis by simp
  next
    case (Some x)
    with r have "main w = (Some x, w')"
      unfolding main_def by (simp only: generate_abort)
    with a Some show ?thesis by simp
  qed
  with r have "fst (loop topics companies [6..20] w) = Some e" by (simp only: fst_conv)
  then show ?thesis by (rule loop_error)
qed

text \<open>
  C9. The shipped topic table has an entry for exactly the days 6 to 20, so the lookup
  succeeds for every day of the loop, and no run of the shipped script, in any
  environment, ends with a key-lookup error.
\<close>

theorem topics_cover_range:
  "dom topics = {6..20} \<and> (\<forall>d \<in> set [6..20]. \<exists>t. topics d = Some t)
    \<and> (\<forall>w k. fst (main w) \<noteq> Some (KeyError k))"
proof (intro conjI allI)
  show "dom topics = {6..20}"
    using topics_range topics_defined by (auto simp: dom_def)
  show "\<forall>d \<in> set [6..20]. \<exists>t. topics d = Some t"
    using topics_defined by simp
  fix w k
  show "fst (main w) \<noteq> Some (KeyError k)"
  proof
    assume "fst (main w) = Some (KeyError k)"
    then obtain d where d: "d \<in> set [6..20]" "KeyError k = day_error topics w d"
      using main_error by blast
    from d(1) have "6 \<le> d" "d \<le> 20" by (simp_all only: set_upto atLeastAtMost_iff)
    then obtain t where "topics d = Some t" using topics_defined by blast
    with d(2) show False by (simp add: day_error_def split: if_splits)
  qed
qed

theorem topics_cover_range_witness:
  "(11::int) \<in> set [6..20] \<and> topics 11 = Some ''useRef Hook''
    \<and> fst (main bare) \<noteq> Some (KeyError 6)"
proof -
  have "\<forall>d \<in> set [6..20]. \<exists>t. topics d = Some t" and "fst (main bare) \<noteq> Some (KeyError 6)"
    using topics_cover_range by blast+
  then show ?thesis by (simp add: topics_def)
qed

subsection \<open>C8: the files of a complete run\<close>

lemma generate_fst: "fst (generate tbl comps w) = fst (loop tbl comps [6..20] w)"
proof -
  obtain r w' where r: "loop tbl comps [6..20] w = (r, w')" by (rule prod.exhaust)
  show ?thesis
  proof (cases r)
    case None
    with r show ?thesis by (simp only: generate_finish fst_conv)
  next
    case (Some e)
    with r show ?thesis by (simp only: generate_abort fst_conv)
  qed
qed

lemma main_ok_iff: "fst (main w) = None \<longleftrightarrow> (\<forall>d \<in> set [6..20]. day_ok topics w d)"
  unfolding main_def generate_fst by (rule loop_fst)

lemma main_complete:
  assumes "fst (main w) = None"
  shows "main w = (None,
    w\<lparr>files := foldl (day_files topics companies) (files w) [6..20],
      trace := trace w @ concat (map (day_events topics companies) [6..20]) @ [Printed final_msg]\<rparr>)"
proof -
  from assms have ok: "\<forall>d \<in> set [6..20]. day_ok topics w d" by (simp only: main_ok_iff)
  show ?thesis
    unfolding main_def generate_finish [OF loop_complete [OF ok]]
    by (simp add: print_line_def)
qed

lemma range_topics: "\<forall>d \<in> set [6..20]. topics d \<noteq> None"
proof
  fix d :: int
  assume "d \<in> set [6..20]"
  then have "6 \<le> d" "d \<le> 20" by (simp_all only: set_upto atLeastAtMost_iff)
  then show "topics d \<noteq> None" using topics_defined by auto
qed

lemma distinct_paths: "distinct (map out_path [i..j])"
  by (simp add: distinct_map inj_on_def out_path_inj)

lemma prepared_ok: "fst (main prepared) = None"
  unfolding main_ok_iff
proof
  fix d :: int
  assume d: "d \<in> set [6..20]"
  then have "''day-'' @ str_int d @ ''/practice'' \<in> set (dirs prepared)"
    by (simp add: prepared_def del: upto_rec_numeral)
  moreover from range_topics d have "topics d \<noteq> None" by (rule bspec)
  moreover have "readonly prepared = []" by (simp add: prepared_def)
  ultimately show "day_ok topics prepared d"
    by (simp add: day_ok_def dirname_out_path)
qed

text \<open>
  C8. On a run of the shipped script that ends without an error, the files written are
  exactly the fifteen paths \<^verbatim>\<open>day-d/practice/interview-questions.md\<close> for \<open>d\<close> from 6 to 20,
  one each and in that order; afterwards each of them holds the full text rendered for
  its day, whatever was there before; every other file is untouched; and the set of
  directories is unchanged: the script creates none.
\<close>

theorem successful_run_files:
  assumes "fst (main w) = None"
  shows "written (trace (snd (main w))) = written (trace w) @ map out_path [6..20]
    \<and> length (map out_path [6..20]) = 15
    \<and> distinct (map out_path [6..20])
    \<and> (\<forall>d. 6 \<le> d \<and> d \<le> 20 \<longrightarrow>
          out_path d = ''day-'' @ str_int d @ ''/practice/interview-questions.md''
          \<and> (\<exists>t. topics d = Some t \<and> files (snd (main w)) (out_path d) = Some (render d t companies)))
    \<and> (\<forall>p. p \<notin> out_path ` {6..20} \<longrightarrow> files (snd (main w)) p = files w p)
    \<and> dirs (snd (main w)) = dirs w"
proof (intro conjI allI impI)
  note run = main_complete [OF assms]
  show "written (trace (snd (main w))) = written (trace w) @ map out_path [6..20]"
    unfolding run using written_days [OF range_topics, of companies]
    by (simp add: written_append del: upto_rec_numeral)
  show "length (map out_path [6..20]) = 15" by simp
  show "distinct (map out_path [6..20])" by (rule distinct_paths)
  show "dirs (snd (main w)) = dirs w" unfolding run by simp
  show "files (snd (main w)) p = files w p" if "p \<notin> out_path ` {6..20}" for p
  proof -
    from that have "p \<notin> out_path ` set [6..20]" unfolding set_upto .
    then have "foldl (day_files topics companies) (files w) [6..20] p = files w p"
      by (rule foldl_files_other)
    then show ?thesis unfolding run by (simp del: upto_rec_numeral)
  qed
  show "out_path d = ''day-'' @ str_int d @ ''/practice/interview-questions.md''" for d
    by (simp add: out_path_def)
  show "\<exists>t. topics d = Some t \<and> files (snd (main w)) (out_path d) = Some (render d t companies)"
    if "6 \<le> d \<and> d \<le> 20" for d
  proof -
    from that have mem: "d \<in> set [6..20]" by (simp only: set_upto atLeastAtMost_iff)
    from that obtain t where t: "topics d = Some t" using topics_defined by blast
    from mem t have "foldl (day_files topics companies) (files w) [6..20] (out_path d)
        = Some (render d t companies)"
      by (rule foldl_files_written)
    then have "files (snd (main w)) (out_path d) = Some (render d t companies)"
      unfolding run by (simp del: upto_rec_numeral)
    with t show ?thesis by blast
  qed
qed

theorem successful_run_files_witness:
  "fst (main prepared) = None
    \<and> files prepared ''day-6/practice/interview-questions.md'' = Some ''stale''
    \<and> files (snd (main prepared)) ''day-6/practice/interview-questions.md''
        = Some (render 6 ''Forms & Controlled Components'' companies)
    \<and> files (snd (main prepared)) ''day-5/practice/interview-questions.md'' = None
    \<and> hd (written (trace (snd (main prepared)))) = ''day-6/practice/interview-questions.md''
    \<and> length (written (trace (snd (main prepared)))) = 15
    \<and> dirs (snd (main prepared)) = dirs prepared"
proof -
  note run = successful_run_files [OF prepared_ok]
  have p6: "out_path 6 = ''day-6/practice/interview-questions.md''"
    by (simp add: out_path_def str_int_small)
  have t6: "topics 6 = Some ''Forms & Controlled Components''" by (simp add: topics_def)
  have fresh: "''day-5/practice/interview-questions.md'' \<notin> out_path ` {6..20}"
  proof
    assume "''day-5/practice/interview-questions.md'' \<in> out_path ` {6..20}"
    then obtain k where k: "k \<in> {6..20}" "''day-5/practice/interview-questions.md'' = out_path k"
      by (rule imageE)
    have "out_path 5 = ''day-5/practice/interview-questions.md''"
      by (simp add: out_path_def str_int_def str_nat.simps digit_def)
    with k(2) have "5 = k" by (simp add: out_path_inj)
    with k(1) show False by simp
  qed
  have stale: "files prepared ''day-6/practice/interview-questions.md'' = Some ''stale''"
    by (simp add: prepared_def)
  have none: "files prepared ''day-5/practice/interview-questions.md'' = None"
    by (simp add: prepared_def)
  have tr: "written (trace prepared) = []" by (simp add: prepared_def)
  from run have w: "written (trace (snd (main prepared))) = written (trace prepared) @ map out_path [6..20]"
    by (rule conjunct1)
  from run have days: "\<forall>d. 6 \<le> d \<and> d \<le> 20 \<longrightarrow>
          out_path d = ''day-'' @ str_int d @ ''/practice/interview-questions.md''
          \<and> (\<exists>t. topics d = Some t \<and> files (snd (main prepared)) (out_path d) = Some (render d t companies))"
    by (rule conjunct2 [THEN conjunct2, THEN conjunct2, THEN conjunct1])
  from run have others: "\<forall>p. p \<notin> out_path ` {6..20} \<longrightarrow> files (snd (main prepared)) p = files prepared p"
    by (rule conjunct2 [THEN conjunct2, THEN conjunct2, THEN conjunct2, THEN conjunct1])
  from run have ds: "dirs (snd (main prepared)) = dirs prepared"
    by (rule conjunct2 [THEN conjunct2, THEN conjunct2, THEN conjunct2, THEN conjunct2])
  have a: "files (snd (main prepared)) ''day-6/practice/interview-questions.md''
        = Some (render 6 ''Forms & Controlled Components'' companies)"
    using days [rule_format, of 6] t6 p6 by simp
  have b: "files (snd (main prepared)) ''day-5/practice/interview-questions.md'' = None"
    using others [rule_format, OF fresh] none by simp
  have c: "hd (written (trace (snd (main prepared)))) = ''day-6/practice/interview-questions.md''"
    unfolding w tr using p6 by simp
  have d: "length (written (trace (snd (main prepared)))) = 15"
    unfolding w tr by simp
  from prepared_ok stale a b c d ds show ?thesis by (intro conjI)
qed

subsection \<open>C7: the console of a complete run\<close>

lemma final_msg_text:
  "final_msg = [CHR 0xE2, CHR 0x9C, CHR 0x85] @ '' Generated all interview question files!''"
  by (simp add: final_msg_def check_mark_def)

lemma created_msg_text:
  "created_msg d = [CHR 0xE2, CHR 0x9C, CHR 0x85] @ '' Created day-'' @ str_int d @ ''/practice/interview-questions.md''"
  by (simp add: created_msg_def check_mark_def)

text \<open>
  C7 (as amended). On a run of the shipped script that ends without an error the console
  receives exactly sixteen lines: for each day \<open>d\<close> from 6 to 20, in ascending order, the
  line made of the check-mark emoji (U+2705, three bytes in UTF-8), a space and
  \<^verbatim>\<open>Created day-d/practice/interview-questions.md\<close>, and then one last line made of the same
  emoji, a space and \<^verbatim>\<open>Generated all interview question files!\<close>.
\<close>

theorem console_of_successful_run:
  assumes "fst (main w) = None"
  shows "console (trace (snd (main w))) = console (trace w) @ map created_msg [6..20] @ [final_msg]
    \<and> length (map created_msg [6..20] @ [final_msg]) = 16
    \<and> (\<forall>d. created_msg d =
          [CHR 0xE2, CHR 0x9C, CHR 0x85] @ '' Created day-'' @ str_int d
            @ ''/practice/interview-questions.md'')
    \<and> final_msg = [CHR 0xE2, CHR 0x9C, CHR 0x85] @ '' Generated all interview question files!''"
proof (intro conjI allI)
  note run = main_complete [OF assms]
  show "console (trace (snd (main w))) = console (trace w) @ map created_msg [6..20] @ [final_msg]"
    unfolding run using console_days [OF range_topics, of companies]
    by (simp add: console_append del: upto_rec_numeral)
  show "length (map created_msg [6..20] @ [final_msg]) = 16" by simp
  show "created_msg d = [CHR 0xE2, CHR 0x9C, CHR 0x85] @ '' Created day-'' @ str_int d
            @ ''/practice/interview-questions.md''" for d
    by (rule created_msg_text)
  show "final_msg = [CHR 0xE2, CHR 0x9C, CHR 0x85] @ '' Generated all interview question files!''"
    by (rule final_msg_text)
qed

lemma prepared_console:
  "console (trace (snd (main prepared))) = map created_msg [6..20] @ [final_msg]"
proof -
  have "console (trace prepared) = []" by (simp add: prepared_def)
  then show ?thesis
    unfolding main_complete [OF prepared_ok] using console_days [OF range_topics, of companies]
    by (simp add: console_append del: upto_rec_numeral)
qed

theorem console_of_successful_run_witness:
  "fst (main prepared) = None
    \<and> length (console (trace (snd (main prepared)))) = 16
    \<and> console (trace (snd (main prepared))) ! 0 =
        [CHR 0xE2, CHR 0x9C, CHR 0x85] @ '' Created day-6/practice/interview-questions.md''
    \<and> console (trace (snd (main prepared))) ! 15 =
        [CHR 0xE2, CHR 0x9C, CHR 0x85] @ '' Generated all interview question files!''"
proof -
  from console_of_successful_run [OF prepared_ok]
  have c: "console (trace (snd (main prepared))) = console (trace prepared) @ map created_msg [6..20] @ [final_msg]"
    by (rule conjunct1)
  have e: "console (trace prepared) = []" by (simp add: prepared_def)
  have l: "length (console (trace (snd (main prepared)))) = 16"
    unfolding c e by simp
  have f: "console (trace (snd (main prepared))) ! 0 =
        [CHR 0xE2, CHR 0x9C, CHR 0x85] @ '' Created day-6/practice/interview-questions.md''"
    unfolding c e by (simp add: created_msg_text str_int_small)
  have g: "console (trace (snd (main prepared))) ! 15 =
        [CHR 0xE2, CHR 0x9C, CHR 0x85] @ '' Generated all interview question files!''"
    unfolding c e by (simp add: final_msg_text)
  from prepared_ok l f g show ?thesis by (intro conjI)
qed

theorem final_line_counterexample:
  "fst (main prepared) = None
    \<and> console (trace (snd (main prepared))) ! 0 \<noteq> ''Created day-6/practice/interview-questions.md''
    \<and> console (trace (snd (main prepared))) ! 15 \<noteq> ''Generated all interview question files!''"
proof -
  have f: "console (trace (snd (main prepared))) ! 0 \<noteq> ''Created day-6/practice/interview-questions.md''"
    unfolding prepared_console by (simp add: created_msg_text)
  have g: "console (trace (snd (main prepared))) ! 15 \<noteq> ''Generated all interview question files!''"
    unfolding prepared_console by (simp add: final_msg_text)
  from prepared_ok f g show ?thesis by (intro conjI)
qed

subsection \<open>C5: running twice\<close>

text \<open>
  C5. If a run of the shipped script ends without an error, a second run started in the
  world the first one left also ends without an error, and the file system after it is
  the same as after the first: in particular, for every day \<open>d\<close> from 6 to 20 the file of
  \<open>d\<close> holds the same text, the one rendered from the two tables, after either run.
\<close>

theorem rerun_identical:
  assumes "fst (main w) = None"
  shows "fst (main (snd (main w))) = None
    \<and> files (snd (main (snd (main w)))) = files (snd (main w))
    \<and> dirs (snd (main (snd (main w)))) = dirs (snd (main w))
    \<and> (\<forall>d. 6 \<le> d \<and> d \<le> 20 \<longrightarrow>
          (\<exists>t. topics d = Some t
             \<and> files (snd (main w)) (out_path d) = Some (render d t companies)
             \<and> files (snd (main (snd (main w)))) (out_path d) = Some (render d t companies)))"
proof -
  let ?w1 = "snd (main w)"
  note first = main_complete [OF assms]
  from assms have ok: "\<forall>d \<in> set [6..20]. day_ok topics w d" by (simp only: main_ok_iff)
  have frame: "dirs ?w1 = dirs w" "readonly ?w1 = readonly w"
    unfolding first by simp_all
  have again: "fst (main ?w1) = None"
    unfolding main_ok_iff day_ok_frame [OF frame] by (rule ok)
  note second = main_complete [OF again]
  have f1: "files ?w1 = foldl (day_files topics companies) (files w) [6..20]"
    unfolding first by (simp del: upto_rec_numeral)
  have "files (snd (main ?w1)) = foldl (day_files topics companies) (files ?w1) [6..20]"
    by (subst second) (simp del: upto_rec_numeral)
  also have "\<dots> = files ?w1"
    unfolding f1 using range_topics by (rule foldl_files_twice)
  finally have same: "files (snd (main ?w1)) = files ?w1" .
  have d2: "dirs (snd (main ?w1)) = dirs ?w1"
    by (subst second) simp
  have each: "\<exists>t. topics d = Some t
       \<and> files ?w1 (out_path d) = Some (render d t companies)
       \<and> files (snd (main ?w1)) (out_path d) = Some (render d t companies)"
    if "6 \<le> d \<and> d \<le> 20" for d
  proof -
    from that have mem: "d \<in> set [6..20]" by (simp only: set_upto atLeastAtMost_iff)
    from that obtain t where t: "topics d = Some t" using topics_defined by blast
    from mem t have "foldl (day_files topics companies) (files w) [6..20] (out_path d)
        = Some (render d t companies)"
      by (rule foldl_files_written)
    then have "files ?w1 (out_path d) = Some (render d t companies)" by (simp only: f1)
    with t same show ?thesis by simp
  qed
  from again same d2 each show ?thesis by blast
qed

theorem rerun_identical_witness:
  "fst (main prepared) = None
    \<and> fst (main (snd (main prepared))) = None
    \<and> files (snd (main (snd (main prepared)))) = files (snd (main prepared))
    \<and> files (snd (main (snd (main prepared)))) ''day-20/practice/interview-questions.md''
        = Some (render 20 ''Render Props Pattern'' companies)"
proof -
  note twice = rerun_identical [OF prepared_ok]
  have p: "out_path 20 = ''day-20/practice/interview-questions.md''"
    by (simp add: out_path_def str_int_small)
  have t: "topics 20 = Some ''Render Props Pattern''" by (simp add: topics_def)
  from twice have again: "fst (main (snd (main prepared))) = None"
    by (rule conjunct1)
  from twice have same: "files (snd (main (snd (main prepared)))) = files (snd (main prepared))"
    by (rule conjunct2 [THEN conjunct1])
  from twice have days: "\<forall>d. 6 \<le> d \<and> d \<le> 20 \<longrightarrow>
          (\<exists>t. topics d = Some t
             \<and> files (snd (main prepared)) (out_path d) = Some (render d t companies)
             \<and> files (snd (main (snd (main prepared)))) (out_path d) = Some (render d t companies))"
    by (rule conjunct2 [THEN conjunct2, THEN conjunct2])
  have last: "files (snd (main (snd (main prepared)))) ''day-20/practice/interview-questions.md''
        = Some (render 20 ''Render Props Pattern'' companies)"
    using days [rule_format, of 20] t p by simp
  from prepared_ok again same last show ?thesis by (intro conjI)
qed

subsection \<open>C10: notices and writes in time\<close>














subsection \<open>C6: the summary of day 20\<close>

lemma day20_lines:
  "split_lines (render 20 ''Render Props Pattern'' companies)
    = all_lines 20 ''Render Props Pattern'' companies @ [[]]"
  using companies_no_newline by (intro split_lines_render) (simp add: newline_def)

lemma summary_section:
  assumes "newline \<notin> set topic" "\<forall>c \<in> set comps. newline \<notin> set c"
  shows "section_lines ''## Summary'' (split_lines (render day topic comps))
    = drop 3 (summary_lines topic) @ [[]]"
proof -
  have heading: "\<forall>l \<in> set (head_lines day topic comps). l \<noteq> ''## Summary''"
    by (simp add: head_lines_def)
  have blocks: "\<forall>l \<in> set (concat (map (\<lambda>c. company_lines c topic) comps)). l \<noteq> ''## Summary''"
    by (induction comps) (simp_all add: company_lines_def)
  have "dropWhile (\<lambda>l. l \<noteq> ''## Summary'') (all_lines day topic comps @ [[]])
      = drop 3 (summary_lines topic) @ [[]]"
    unfolding all_lines_def using heading blocks
    by (simp add: dropWhile_append summary_lines_def)
  then show ?thesis
    unfolding section_lines_def split_lines_render [OF assms]
    by (simp add: summary_lines_def dart_def)
qed

lemma day20_all_lines:
  "all_lines 20 ''Render Props Pattern'' companies =
    head_lines 20 ''Render Props Pattern'' companies
    @ concat (map (\<lambda>c. company_lines c ''Render Props Pattern'') companies)
    @ summary_lines ''Render Props Pattern''"
  by (simp only: all_lines_def)

text \<open>
  C6 (as amended). Day 20 has the topic \<^verbatim>\<open>Render Props Pattern\<close>. In the text rendered for
  it the section headed \<^verbatim>\<open>## Summary\<close> consists of the five count lines, each a markdown
  bullet, the first being \<^verbatim>\<open>- **Total Questions**: 100+\<close>, then a blank line and the
  closing line, which is the sentence \<^verbatim>\<open>Master Render Props Pattern with comprehensive coverage!\<close>
  preceded by the target emoji (U+1F3AF, four bytes in UTF-8) and a space and wrapped in
  the bold markers \<^verbatim>\<open>**\<close>. That closing line is the last non-empty line of the text.
\<close>

theorem summary_of_day_20:
  "topics 20 = Some ''Render Props Pattern''
    \<and> section_lines ''## Summary'' (split_lines (render 20 ''Render Props Pattern'' companies)) =
        [''## Summary'',
         ''- **Total Questions**: 100+'',
         ''- **Theory**: 50+ questions'',
         ''- **Coding**: 40+ challenges'',
         ''- **Advanced**: 10+ edge cases'',
         ''- **Company-specific**: 10+ questions'',
         '''',
         ''**'' @ [CHR 0xF0, CHR 0x9F, CHR 0x8E, CHR 0xAF]
            @ '' Master Render Props Pattern with comprehensive coverage!**'',
         '''',
         '''']
    \<and> last (filter (\<lambda>l. l \<noteq> '''') (split_lines (render 20 ''Render Props Pattern'' companies))) =
        ''**'' @ [CHR 0xF0, CHR 0x9F, CHR 0x8E, CHR 0xAF]
          @ '' Master Render Props Pattern with comprehensive coverage!**''"
proof (intro conjI)
  show "topics 20 = Some ''Render Props Pattern''" by (simp add: topics_def)
  have nl: "newline \<notin> set ''Render Props Pattern''" by (simp add: newline_def)
  show "section_lines ''## Summary'' (split_lines (render 20 ''Render Props Pattern'' companies)) =
        [''## Summary'',
         ''- **Total Questions**: 100+'',
         ''- **Theory**: 50+ questions'',
         ''- **Coding**: 40+ challenges'',
         ''- **Advanced**: 10+ edge cases'',
         ''- **Company-specific**: 10+ questions'',
         '''',
         ''**'' @ [CHR 0xF0, CHR 0x9F, CHR 0x8E, CHR 0xAF]
            @ '' Master Render Props Pattern with comprehensive coverage!**'',
         '''',
         '''']"
    unfolding summary_section [OF nl companies_no_newline]
    by (simp add: summary_lines_def dart_def)
  have "last (filter (\<lambda>l. l \<noteq> '''') (xs @ summary_lines ''Render Props Pattern'' @ [[]])) =
        ''**'' @ [CHR 0xF0, CHR 0x9F, CHR 0x8E, CHR 0xAF]
          @ '' Master Render Props Pattern with comprehensive coverage!**''" for xs
    by (simp add: summary_lines_def dart_def)
  from this [of "head_lines 20 ''Render Props Pattern'' companies
      @ concat (map (\<lambda>c. company_lines c ''Render Props Pattern'') companies)"]
  show "last (filter (\<lambda>l. l \<noteq> '''') (split_lines (render 20 ''Render Props Pattern'' companies))) =
        ''**'' @ [CHR 0xF0, CHR 0x9F, CHR 0x8E, CHR 0xAF]
          @ '' Master Render Props Pattern with comprehensive coverage!**''"
    unfolding day20_lines day20_all_lines by (simp only: append_assoc)
qed

theorem summary_literal_counterexample:
  "''**Total Questions**: 100+'' \<notin> set (split_lines (render 20 ''Render Props Pattern'' companies))
    \<and> [CHR 0xF0, CHR 0x9F, CHR 0x8E, CHR 0xAF] @ '' Master Render Props Pattern with comprehensive coverage!''
        \<notin> set (split_lines (render 20 ''Render Props Pattern'' companies))"
proof -
  have h: "''**Total Questions**: 100+'' \<notin> set (head_lines 20 ''Render Props Pattern'' companies)"
    "[CHR 0xF0, CHR 0x9F, CHR 0x8E, CHR 0xAF] @ '' Master Render Props Pattern with comprehensive coverage!''
        \<notin> set (head_lines 20 ''Render Props Pattern'' companies)"
    by (simp_all add: head_lines_def)
  have c: "''**Total Questions**: 100+'' \<notin> set (company_lines x ''Render Props Pattern'')"
    "[CHR 0xF0, CHR 0x9F, CHR 0x8E, CHR 0xAF] @ '' Master Render Props Pattern with comprehensive coverage!''
        \<notin> set (company_lines x ''Render Props Pattern'')" for x
    by (simp_all add: company_lines_def)
  have s: "''**Total Questions**: 100+'' \<notin> set (summary_lines ''Render Props Pattern'')"
    "[CHR 0xF0, CHR 0x9F, CHR 0x8E, CHR 0xAF] @ '' Master Render Props Pattern with comprehensive coverage!''
        \<notin> set (summary_lines ''Render Props Pattern'')"
    by (simp_all add: summary_lines_def dart_def)
  from h c s show ?thesis
    unfolding day20_lines day20_all_lines by simp
qed

subsection \<open>C4: the company subsections\<close>

lemma heading_is_heading: "company_heading (''### '' @ c @ '' Questions'')"
  by (simp add: company_heading_def suffix_def)

lemma head_no_heading: "filter company_heading (head_lines d t cs) = []"
  by (simp add: head_lines_def company_heading_def suffix_to_prefix)

lemma summary_no_heading: "filter company_heading (summary_lines t) = []"
  by (simp add: summary_lines_def company_heading_def)

lemma company_one_heading:
  "filter company_heading (company_lines c t) = [''### '' @ c @ '' Questions'']"
  using heading_is_heading [of c] by (simp add: company_lines_def) (simp add: company_heading_def)

lemma blocks_headings:
  "filter company_heading (concat (map (\<lambda>c. company_lines c t) cs))
    = map (\<lambda>c. ''### '' @ c @ '' Questions'') cs"
  by (induction cs) (simp_all add: company_one_heading)

lemma all_headings:
  "filter company_heading (all_lines d t cs @ [[]]) = map (\<lambda>c. ''### '' @ c @ '' Questions'') cs"
  by (simp add: all_lines_def head_no_heading summary_no_heading blocks_headings)
    (simp add: company_heading_def)

lemma block_in_document:
  assumes "c \<in> set cs"
  shows "sublist
    [''### '' @ c @ '' Questions'', ''- Question 1 about '' @ t, ''- Question 2 about '' @ t,
     ''- Best practices for '' @ t, '''']
    (all_lines d t cs @ [[]])"
proof -
  from assms obtain pre post where cs: "cs = pre @ c # post" by (meson split_list)
  let ?f = "\<lambda>c. company_lines c t"
  have rest: "\<exists>r. concat (map ?f post) @ summary_lines t @ [[]] = '''' # r"
    by (cases post) (simp_all add: summary_lines_def company_lines_def)
  then obtain r where r: "concat (map ?f post) @ summary_lines t @ [[]] = '''' # r" ..
  have "all_lines d t cs @ [[]] =
      (head_lines d t cs @ concat (map ?f pre) @ ['''']) @
      [''### '' @ c @ '' Questions'', ''- Question 1 about '' @ t, ''- Question 2 about '' @ t,
       ''- Best practices for '' @ t, ''''] @ r"
    unfolding all_lines_def cs using r by (simp add: company_lines_def)
  then show ?thesis unfolding sublist_def by blast
qed

lemma theory_section_company_line:
  "''**Companies**: '' @ join '', '' cs
    \<in> set (section_lines ''## Theory Questions from Top MNCs (50+)'' (all_lines d t cs @ [[]]))"
  by (simp add: section_lines_def all_lines_def head_lines_def)

lemma joined_companies:
  "join '', '' companies =
    ''Google, Meta, Amazon, Microsoft, Apple, Netflix, Uber, LinkedIn, Twitter, Airbnb''"
  by (simp add: companies_def)

text \<open>
  C4 (as amended). For every day \<open>d\<close> from 6 to 20, with \<open>t\<close> its topic, the text rendered
  for \<open>d\<close> has exactly ten company subsections: its heading lines of the form
  \<^verbatim>\<open>### ... Questions\<close> are \<^verbatim>\<open>### c Questions\<close> for the ten companies \<open>c\<close> of the list, in the
  order of the list. Each such heading is followed at once by three bullet lines and a
  blank line; the bullets are \<^verbatim>\<open>- Question 1 about t\<close>, \<^verbatim>\<open>- Question 2 about t\<close> and
  \<^verbatim>\<open>- Best practices for t\<close>: they interpolate the topic only, the company name appears
  in the heading alone. The company line of the section \<^verbatim>\<open>## Theory Questions from Top MNCs (50+)\<close>
  is the label \<^verbatim>\<open>**Companies**:\<close>, a space and the list joined with comma and space, that is
  \<^verbatim>\<open>Google, Meta, Amazon, Microsoft, Apple, Netflix, Uber, LinkedIn, Twitter, Airbnb\<close>.
\<close>

theorem company_subsections:
  "6 \<le> d \<Longrightarrow> d \<le> 20 \<Longrightarrow>
    \<exists>t. topics d = Some t
      \<and> filter company_heading (split_lines (render d t companies))
          = map (\<lambda>c. ''### '' @ c @ '' Questions'') companies
      \<and> length companies = 10
      \<and> (\<forall>c \<in> set companies.
            sublist
              [''### '' @ c @ '' Questions'', ''- Question 1 about '' @ t,
               ''- Question 2 about '' @ t, ''- Best practices for '' @ t, '''']
              (split_lines (render d t companies)))
      \<and> ''**Companies**: Google, Meta, Amazon, Microsoft, Apple, Netflix, Uber, LinkedIn, Twitter, Airbnb''
          \<in> set (section_lines ''## Theory Questions from Top MNCs (50+)''
                (split_lines (render d t companies)))
      \<and> join '', '' companies =
          ''Google, Meta, Amazon, Microsoft, Apple, Netflix, Uber, LinkedIn, Twitter, Airbnb''"
proof -
  assume "6 \<le> d" "d \<le> 20"
  then obtain t where t: "topics d = Some t" using topics_defined by blast
  then have "newline \<notin> set t" by (rule topics_no_newline)
  then have lines: "split_lines (render d t companies) = all_lines d t companies @ [[]]"
    using companies_no_newline by (rule split_lines_render)
  have line: "''**Companies**: Google, Meta, Amazon, Microsoft, Apple, Netflix, Uber, LinkedIn, Twitter, Airbnb''
      \<in> set (section_lines ''## Theory Questions from Top MNCs (50+)'' (all_lines d t companies @ [[]]))"
    using theory_section_company_line [of companies d t] unfolding joined_companies by simp
  have ten: "length companies = 10" by (simp add: companies_def)
  have blocks: "\<forall>c \<in> set companies.
      sublist
        [''### '' @ c @ '' Questions'', ''- Question 1 about '' @ t,
         ''- Question 2 about '' @ t, ''- Best practices for '' @ t, '''']
        (split_lines (render d t companies))"
    unfolding lines using block_in_document [of _ companies t d] by blast
  from t all_headings [of d t companies] ten blocks line joined_companies
  show ?thesis unfolding lines [symmetric] by (intro exI [of _ t] conjI)
qed

lemma day6_lines:
  "split_lines (render 6 ''Forms & Controlled Components'' companies)
    = all_lines 6 ''Forms & Controlled Components'' companies @ [[]]"
  using companies_no_newline by (intro split_lines_render) (simp add: newline_def)

theorem company_subsections_witness:
  "(6::int) \<le> 6 \<and> (6::int) \<le> 20 \<and> topics 6 = Some ''Forms & Controlled Components''
    \<and> filter company_heading (split_lines (render 6 ''Forms & Controlled Components'' companies)) =
        [''### Google Questions'', ''### Meta Questions'', ''### Amazon Questions'',
         ''### Microsoft Questions'', ''### Apple Questions'', ''### Netflix Questions'',
         ''### Uber Questions'', ''### LinkedIn Questions'', ''### Twitter Questions'',
         ''### Airbnb Questions'']
    \<and> sublist
        [''### Netflix Questions'', ''- Question 1 about Forms & Controlled Components'',
         ''- Question 2 about Forms & Controlled Components'',
         ''- Best practices for Forms & Controlled Components'', '''']
        (split_lines (render 6 ''Forms & Controlled Components'' companies))"
proof -
  have t6: "topics 6 = Some ''Forms & Controlled Components''" by (simp add: topics_def)
  from company_subsections [of 6] obtain t where t: "topics 6 = Some t"
    and heads: "filter company_heading (split_lines (render 6 t companies))
          = map (\<lambda>c. ''### '' @ c @ '' Questions'') companies"
    and blocks: "\<forall>c \<in> set companies.
            sublist
              [''### '' @ c @ '' Questions'', ''- Question 1 about '' @ t,
               ''- Question 2 about '' @ t, ''- Best practices for '' @ t, '''']
              (split_lines (render 6 t companies))"
    by auto
  from t t6 have eq: "t = ''Forms & Controlled Components''" by simp
  have "''Netflix'' \<in> set companies" by (simp add: companies_def)
  with blocks have "sublist
              [''### '' @ ''Netflix'' @ '' Questions'', ''- Question 1 about '' @ t,
               ''- Question 2 about '' @ t, ''- Best practices for '' @ t, '''']
              (split_lines (render 6 t companies))"
    by (rule bspec)
  then have netflix: "sublist
        [''### Netflix Questions'', ''- Question 1 about Forms & Controlled Components'',
         ''- Question 2 about Forms & Controlled Components'',
         ''- Best practices for Forms & Controlled Components'', '''']
        (split_lines (render 6 ''Forms & Controlled Components'' companies))"
    unfolding eq by simp
  have "map (\<lambda>c. ''### '' @ c @ '' Questions'') companies =
        [''### Google Questions'', ''### Meta Questions'', ''### Amazon Questions'',
         ''### Microsoft Questions'', ''### Apple Questions'', ''### Netflix Questions'',
         ''### Uber Questions'', ''### LinkedIn Questions'', ''### Twitter Questions'',
         ''### Airbnb Questions'']"
    by (simp add: companies_def)
  with heads have ten: "filter company_heading (split_lines (render 6 ''Forms & Controlled Components'' companies)) =
        [''### Google Questions'', ''### Meta Questions'', ''### Amazon Questions'',
         ''### Microsoft Questions'', ''### Apple Questions'', ''### Netflix Questions'',
         ''### Uber Questions'', ''### LinkedIn Questions'', ''### Twitter Questions'',
         ''### Airbnb Questions'']"
    unfolding eq by (simp only:)
  from t6 ten netflix show ?thesis by simp
qed

theorem company_bullets_counterexample:
  "split_lines (render 6 ''Forms & Controlled Components'' companies) ! 46 = ''### Google Questions''
    \<and> split_lines (render 6 ''Forms & Controlled Components'' companies) ! 47
        = ''- Question 1 about Forms & Controlled Components''
    \<and> split_lines (render 6 ''Forms & Controlled Components'' companies) ! 48
        = ''- Question 2 about Forms & Controlled Components''
    \<and> split_lines (render 6 ''Forms & Controlled Components'' companies) ! 49
        = ''- Best practices for Forms & Controlled Components''
    \<and> \<not> sublist ''Google'' (split_lines (render 6 ''Forms & Controlled Components'' companies) ! 47)
    \<and> \<not> sublist ''Google'' (split_lines (render 6 ''Forms & Controlled Components'' companies) ! 48)
    \<and> \<not> sublist ''Google'' (split_lines (render 6 ''Forms & Controlled Components'' companies) ! 49)
    \<and> split_lines (render 6 ''Forms & Controlled Components'' companies) ! 15
        = ''**Companies**: Google, Meta, Amazon, Microsoft, Apple, Netflix, Uber, LinkedIn, Twitter, Airbnb''
    \<and> split_lines (render 6 ''Forms & Controlled Components'' companies) ! 15
        \<noteq> ''Google, Meta, Amazon, Microsoft, Apple, Netflix, Uber, LinkedIn, Twitter, Airbnb''"
proof -
  let ?L = "split_lines (render 6 ''Forms & Controlled Components'' companies)"
  have l46: "?L ! 46 = ''### Google Questions''"
    and l47: "?L ! 47 = ''- Question 1 about Forms & Controlled Components''"
    and l48: "?L ! 48 = ''- Question 2 about Forms & Controlled Components''"
    and l49: "?L ! 49 = ''- Best practices for Forms & Controlled Components''"
    and l15: "?L ! 15 = ''**Companies**: Google, Meta, Amazon, Microsoft, Apple, Netflix, Uber, LinkedIn, Twitter, Airbnb''"
    unfolding day6_lines
    by (simp_all add: all_lines_def head_lines_def company_lines_def companies_def)
  have n47: "\<not> sublist ''Google'' (?L ! 47)" unfolding l47 by (simp add: sublist_Cons_right)
  have n48: "\<not> sublist ''Google'' (?L ! 48)" unfolding l48 by (simp add: sublist_Cons_right)
  have n49: "\<not> sublist ''Google'' (?L ! 49)" unfolding l49 by (simp add: sublist_Cons_right)
  have d15: "?L ! 15 \<noteq> ''Google, Meta, Amazon, Microsoft, Apple, Netflix, Uber, LinkedIn, Twitter, Airbnb''"
    unfolding l15 by simp
  from l46 l47 l48 l49 n47 n48 n49 l15 d15 show ?thesis by (intro conjI)
qed

end
